theory Spec2Isabelle
  imports
    Main
    "HOL-Library.Sublist"
    "HOL-Library.Char_ord"
    "HOL-Library.List_Lexorder"
    "HOL-Library.Multiset"
begin

section \<open>Python strings\<close>

text \<open>
  A Python \<open>str\<close> is modelled as a \<open>string\<close> holding the UTF-8 encoding of the text.
  The substring tests of the script (\<open>in\<close>, \<open>startswith\<close>, \<open>endswith\<close>) are
  \<open>sublist\<close>, \<open>prefix\<close> and \<open>suffix\<close>; on UTF-8 they agree with the tests on code
  points. Case mapping, whitespace and line boundaries are those of the ASCII range:
  a character outside it is left alone by \<open>lower\<close>, is no whitespace and ends no line.
\<close>

datatype error = IndexError | KeyError | AttributeError | RuntimeError

definition lower_chr :: "char \<Rightarrow> char" where
  "lower_chr c = (if CHR ''A'' \<le> c \<and> c \<le> CHR ''Z'' then char_of (of_char c + (32::nat)) else c)"

definition lower :: "string \<Rightarrow> string" where
  "lower s = map lower_chr s"

definition is_space :: "char \<Rightarrow> bool" where
  "is_space c \<longleftrightarrow> c \<in> {CHR 0x09, CHR 0x0A, CHR 0x0B, CHR 0x0C, CHR 0x0D,
                          CHR 0x1C, CHR 0x1D, CHR 0x1E, CHR 0x1F, CHR 0x20}"

text \<open>\<open>s.strip(chars)\<close> and \<open>s.lstrip(chars)\<close>, the set of characters as a predicate.\<close>

definition lstrip_with :: "(char \<Rightarrow> bool) \<Rightarrow> string \<Rightarrow> string" where
  "lstrip_with P s = dropWhile P s"

definition rstrip_with :: "(char \<Rightarrow> bool) \<Rightarrow> string \<Rightarrow> string" where
  "rstrip_with P s = rev (dropWhile P (rev s))"

definition strip_with :: "(char \<Rightarrow> bool) \<Rightarrow> string \<Rightarrow> string" where
  "strip_with P s = rstrip_with P (lstrip_with P s)"

definition strip :: "string \<Rightarrow> string" where
  "strip s = strip_with is_space s"

text \<open>\<open>s.replace(a, b)\<close> for single characters.\<close>

definition replace_chr :: "char \<Rightarrow> char \<Rightarrow> string \<Rightarrow> string" where
  "replace_chr a b s = map (\<lambda>c. if c = a then b else c) s"

text \<open>\<open>s.split(sep)\<close> for a single character: always at least one field.\<close>

fun split_on :: "char \<Rightarrow> string \<Rightarrow> string list" where
  "split_on sep [] = [[]]"
| "split_on sep (c # cs) =
     (if c = sep then [] # split_on sep cs
      else (case split_on sep cs of
              [] \<Rightarrow> [[c]]
            | w # ws \<Rightarrow> (c # w) # ws))"

text \<open>
  \<open>s.splitlines()\<close>: a line ends at \<open>\n\<close>, \<open>\r\<close>, \<open>\r\n\<close>, \<open>\v\<close>, \<open>\f\<close> and the
  separators \<open>0x1C\<close>, \<open>0x1D\<close>, \<open>0x1E\<close>; there is no empty last line.
\<close>

definition is_linebreak :: "char \<Rightarrow> bool" where
  "is_linebreak c \<longleftrightarrow> c \<in> {CHR 0x0A, CHR 0x0B, CHR 0x0C, CHR 0x0D, CHR 0x1C, CHR 0x1D, CHR 0x1E}"

fun splitlines_from :: "string \<Rightarrow> string \<Rightarrow> string list" where
  "splitlines_from cur [] = (if cur = [] then [] else [cur])"
| "splitlines_from cur [c] =
     (if is_linebreak c then [cur] else [cur @ [c]])"
| "splitlines_from cur (c # d # cs) =
     (if c = CHR 0x0D \<and> d = CHR 0x0A then cur # splitlines_from [] cs
      else if is_linebreak c then cur # splitlines_from [] (d # cs)
      else splitlines_from (cur @ [c]) (d # cs))"

definition splitlines :: "string \<Rightarrow> string list" where
  "splitlines s = splitlines_from [] s"

text \<open>\<open>sep.join(xs)\<close>.\<close>

fun join :: "string \<Rightarrow> string list \<Rightarrow> string" where
  "join sep [] = []"
| "join sep [x] = x"
| "join sep (x # y # ys) = x @ sep @ join sep (y # ys)"

section \<open>Paths\<close>

definition normalize_path :: "string \<Rightarrow> string" where
  "normalize_path path = strip (replace_chr (CHR 0x5C) (CHR ''/'') path)"

definition split_path :: "string \<Rightarrow> string list" where
  "split_path path = filter (\<lambda>part. part \<noteq> []) (split_on (CHR ''/'') (normalize_path path))"

text \<open>
  \<open>Path(path).name\<close> of a POSIX path: the last component that is neither empty nor
  \<open>.\<close>, the empty string when there is none.
\<close>

definition path_name :: "string \<Rightarrow> string" where
  "path_name path =
     (case filter (\<lambda>x. x \<noteq> [] \<and> x \<noteq> ''.'') (split_on (CHR ''/'') path) of
        [] \<Rightarrow> []
      | ps \<Rightarrow> last ps)"

text \<open>
  \<open>Path(path).suffix\<close>: from the last dot of the name on, when that dot is neither the
  first nor the last character of the name.
\<close>

definition path_suffix :: "string \<Rightarrow> string" where
  "path_suffix path =
     (let name = path_name path;
          after = rev (takeWhile (\<lambda>c. c \<noteq> CHR ''.'') (rev name))
      in if CHR ''.'' \<in> set name \<and> after \<noteq> [] \<and> length after + 1 < length name
         then CHR ''.'' # after else [])"

definition extension :: "string \<Rightarrow> string" where
  "extension path = lower (path_suffix path)"

definition basename :: "string \<Rightarrow> string" where
  "basename path = lower (path_name path)"

section \<open>The change parser\<close>

record change =
  status :: string
  path :: string
  old_path :: "string option"

text \<open>
  One line of \<open>parse_name_status\<close>: \<open>None\<close> when the line adds no change. The first
  character of the stripped status token is read before the number of fields is looked
  at, and that read raises on an empty token.
\<close>

definition parse_line :: "string \<Rightarrow> error + change option" where
  "parse_line line =
     (let parts = split_on (CHR 0x09) line;
          status_token = strip (hd parts)
      in case status_token of
           [] \<Rightarrow> Inl IndexError
         | c # _ \<Rightarrow>
             (let st = [c] in
              if st \<in> {''R'', ''C''} \<and> length parts \<ge> 3 then
                Inr (Some \<lparr>status = st, path = normalize_path (parts ! 2),
                           old_path = Some (normalize_path (parts ! 1))\<rparr>)
              else if length parts \<ge> 2 then
                Inr (Some \<lparr>status = st, path = normalize_path (parts ! 1), old_path = None\<rparr>)
              else Inr None))"

fun parse_lines :: "string list \<Rightarrow> change list \<Rightarrow> error + change list" where
  "parse_lines [] changes = Inr changes"
| "parse_lines (line # rest) changes =
     (if strip line = [] then parse_lines rest changes
      else (case parse_line line of
              Inl e \<Rightarrow> Inl e
            | Inr None \<Rightarrow> parse_lines rest changes
            | Inr (Some ch) \<Rightarrow> parse_lines rest (changes @ [ch])))"

definition parse_name_status :: "string \<Rightarrow> error + change list" where
  "parse_name_status raw = parse_lines (splitlines raw) []"

section \<open>The path classifier\<close>

definition DOC_EXTENSIONS :: "string set" where
  "DOC_EXTENSIONS = {''.md'', ''.rst'', ''.adoc'', ''.txt''}"

definition STYLE_EXTENSIONS :: "string set" where
  "STYLE_EXTENSIONS = {''.css'', ''.scss'', ''.sass'', ''.less'', ''.styl''}"

definition DOC_BASENAMES :: "string set" where
  "DOC_BASENAMES = {''readme.md'', ''changelog.md'', ''license'', ''license.md''}"

definition STYLE_CONFIG_BASENAMES :: "string set" where
  "STYLE_CONFIG_BASENAMES =
     {''.editorconfig'', ''.prettierrc'', ''.stylelintrc'', ''.eslintrc'', ''.eslintrc.js'',
      ''.eslintrc.cjs'', ''.eslintrc.json''}"

definition BUILD_BASENAMES :: "string set" where
  "BUILD_BASENAMES =
     {''makefile'', ''dockerfile'', ''docker-compose.yml'', ''docker-compose.yaml'',
      ''package.json'', ''pnpm-lock.yaml'', ''yarn.lock'', ''package-lock.json'', ''pom.xml'',
      ''build.gradle'', ''build.gradle.kts'', ''gradle.properties'', ''pyproject.toml'',
      ''requirements.txt''}"

text \<open>The hints are only run through with \<open>any\<close>, so their order does not matter.\<close>

definition CI_PATH_HINTS :: "string list" where
  "CI_PATH_HINTS =
     [''.github/workflows/'', ''.gitlab-ci.yml'', ''.circleci/'', ''azure-pipelines.yml'',
      ''azure-pipelines.yaml'', ''jenkinsfile'']"

definition ROOT_SCOPE_BASENAMES :: "string set" where
  "ROOT_SCOPE_BASENAMES =
     {''.gitignore'', ''.gitattributes'', ''.npmrc'', ''.nvmrc'', ''readme.md'', ''license'',
      ''license.md''}"

definition FIX_KEYWORDS :: "string list" where
  "FIX_KEYWORDS =
     [''fix'', ''bug'', ''hotfix'', ''crash'', ''error'', ''exception'', ''null'', ''patch'',
      [CHR 0xE4, CHR 0xBF, CHR 0xAE, CHR 0xE5, CHR 0xA4, CHR 0x8D],
      [CHR 0xE9, CHR 0x94, CHR 0x99, CHR 0xE8, CHR 0xAF, CHR 0xAF],
      [CHR 0xE5, CHR 0xBC, CHR 0x82, CHR 0xE5, CHR 0xB8, CHR 0xB8]]"

definition REFACTOR_KEYWORDS :: "string list" where
  "REFACTOR_KEYWORDS =
     [''refactor'', ''cleanup'', ''restructure'', ''rename'',
      [CHR 0xE9, CHR 0x87, CHR 0x8D, CHR 0xE6, CHR 0x9E, CHR 0x84],
      [CHR 0xE6, CHR 0x95, CHR 0xB4, CHR 0xE7, CHR 0x90, CHR 0x86]]"

definition PERF_KEYWORDS :: "string list" where
  "PERF_KEYWORDS =
     [''perf'', ''performance'', ''optimiz'', ''benchmark'',
      [CHR 0xE6, CHR 0x80, CHR 0xA7, CHR 0xE8, CHR 0x83, CHR 0xBD],
      [CHR 0xE4, CHR 0xBC, CHR 0x98, CHR 0xE5, CHR 0x8C, CHR 0x96]]"

definition is_docs :: "string \<Rightarrow> bool" where
  "is_docs pth =
     (let p = lower (normalize_path pth);
          b = basename p;
          parts = split_path p
      in extension p \<in> DOC_EXTENSIONS
         \<or> b \<in> DOC_BASENAMES
         \<or> ''docs'' \<in> set parts
         \<or> ''doc'' \<in> set parts
         \<or> ''documentation'' \<in> set parts)"

definition is_test :: "string \<Rightarrow> bool" where
  "is_test pth =
     (let p = lower (normalize_path pth);
          b = basename p;
          parts = split_path p
      in if list_ex (\<lambda>part. part \<in> {''test'', ''tests'', ''testing'', ''__tests__'', ''spec'',
                                          ''specs'', ''e2e''}) parts
         then True
         else prefix ''test_'' b
              \<or> suffix ''_test.py'' b
              \<or> suffix ''.spec.ts'' b
              \<or> suffix ''.spec.tsx'' b
              \<or> suffix ''.spec.js'' b
              \<or> suffix ''.spec.jsx'' b)"

definition is_ci :: "string \<Rightarrow> bool" where
  "is_ci pth =
     (let p = lower (normalize_path pth)
      in if list_ex (\<lambda>hint. prefix hint p) CI_PATH_HINTS then True
         else basename p \<in> {''jenkinsfile'', ''.gitlab-ci.yml''})"

definition is_build :: "string \<Rightarrow> bool" where
  "is_build pth =
     (let p = lower (normalize_path pth);
          b = basename p;
          parts = split_path p
      in if b \<in> BUILD_BASENAMES then True
         else ''build'' \<in> set parts
              \<or> prefix ''vite.config'' b
              \<or> prefix ''webpack.config'' b
              \<or> prefix ''rollup.config'' b)"

definition is_style :: "string \<Rightarrow> bool" where
  "is_style pth =
     (let p = lower (normalize_path pth)
      in extension p \<in> STYLE_EXTENSIONS \<or> basename p \<in> STYLE_CONFIG_BASENAMES)"

definition is_perf :: "string \<Rightarrow> bool" where
  "is_perf pth =
     (let p = lower (normalize_path pth)
      in sublist ''perf'' p \<or> sublist ''benchmark'' p)"

definition has_keyword :: "string \<Rightarrow> string list \<Rightarrow> bool" where
  "has_keyword text keywords =
     (let lowered = lower text in list_ex (\<lambda>keyword. sublist keyword lowered) keywords)"

section \<open>The content signal\<close>

definition is_diff_metadata :: "string \<Rightarrow> bool" where
  "is_diff_metadata line \<longleftrightarrow>
     prefix ''diff --git '' line
     \<or> prefix ''index '' line
     \<or> prefix ''@@ '' line
     \<or> prefix ''--- '' line
     \<or> prefix ''+++ '' line"

fun content_lines :: "string list \<Rightarrow> string list" where
  "content_lines [] = []"
| "content_lines (line # rest) =
     (if is_diff_metadata line then content_lines rest
      else if prefix ''+'' line \<or> prefix ''-'' line then tl line # content_lines rest
      else content_lines rest)"

definition extract_content_signal :: "string \<Rightarrow> string" where
  "extract_content_signal diff_text = lower (join [CHR 0x0A] (content_lines (splitlines diff_text)))"

section \<open>Counting changes\<close>

text \<open>
  The dictionary of counts: a lookup of a key it lacks raises \<open>KeyError\<close>. The
  counting loop only ever adds one to a key of its own literal dictionary, which is
  there; \<open>increment\<close> leaves the dictionary alone on any other key.
\<close>

type_synonym counts = "string \<rightharpoonup> int"

definition lookup :: "counts \<Rightarrow> string \<Rightarrow> error + int" where
  "lookup counts k = (case counts k of None \<Rightarrow> Inl KeyError | Some v \<Rightarrow> Inr v)"

definition increment :: "counts \<Rightarrow> string \<Rightarrow> counts" where
  "increment counts k = (case counts k of None \<Rightarrow> counts | Some v \<Rightarrow> counts(k \<mapsto> v + 1))"

fun count_loop :: "change list \<Rightarrow> counts \<Rightarrow> counts" where
  "count_loop [] counts = counts"
| "count_loop (ch # rest) counts =
     (if counts (status ch) \<noteq> None then count_loop rest (increment counts (status ch))
      else if status ch = ''C'' then count_loop rest (increment counts ''A'')
      else count_loop rest (increment counts ''M''))"

definition count_changes :: "change list \<Rightarrow> counts" where
  "count_changes changes =
     count_loop changes [''A'' \<mapsto> 0, ''M'' \<mapsto> 0, ''D'' \<mapsto> 0, ''R'' \<mapsto> 0]"

section \<open>Type inference\<close>

definition infer_type :: "string list \<Rightarrow> string \<Rightarrow> counts \<Rightarrow> error + string" where
  "infer_type paths diff_text counts =
     (if paths = [] then Inr ''chore''
      else if sublist ''this reverts commit'' (lower diff_text) then Inr ''revert''
      else if list_all is_docs paths then Inr ''docs''
      else if list_all is_test paths then Inr ''test''
      else if list_all is_ci paths then Inr ''ci''
      else if list_all is_build paths then Inr ''build''
      else if list_all is_style paths then Inr ''style''
      else
        (let joined_paths = lower (join '' '' paths);
             content_signal = extract_content_signal diff_text;
             signal_text = joined_paths @ [CHR 0x0A] @ content_signal
         in if list_ex is_perf paths \<or> has_keyword signal_text PERF_KEYWORDS then Inr ''perf''
            else if has_keyword signal_text FIX_KEYWORDS then Inr ''fix''
            else if has_keyword signal_text REFACTOR_KEYWORDS then Inr ''refactor''
            else (case lookup counts ''A'' of
                    Inl e \<Rightarrow> Inl e
                  | Inr a \<Rightarrow> if a > 0 then Inr ''feat'' else Inr ''chore'')))"

section \<open>Scope sanitization and inference\<close>

definition scope_char :: "char \<Rightarrow> bool" where
  "scope_char c \<longleftrightarrow>
     (CHR ''a'' \<le> c \<and> c \<le> CHR ''z'') \<or> (CHR ''A'' \<le> c \<and> c \<le> CHR ''Z'')
     \<or> (CHR ''0'' \<le> c \<and> c \<le> CHR ''9'') \<or> c = CHR ''.'' \<or> c = CHR ''_'' \<or> c = CHR ''-''"

text \<open>
  \<open>re.sub(r"[^a-zA-Z0-9._-]+", "-", scope)\<close>: every maximal run of characters outside
  the class becomes one hyphen. The flag says that the run before the current position
  has already been replaced.
\<close>

fun sub_runs :: "bool \<Rightarrow> string \<Rightarrow> string" where
  "sub_runs in_run [] = []"
| "sub_runs in_run (c # cs) =
     (if scope_char c then c # sub_runs False cs
      else if in_run then sub_runs True cs
      else CHR ''-'' # sub_runs True cs)"

definition sanitize_scope :: "string \<Rightarrow> string" where
  "sanitize_scope scope =
     (let cleaned = lower (strip_with (\<lambda>c. c = CHR ''-'' \<or> c = CHR ''.'') (sub_runs False scope))
      in if cleaned \<noteq> [] then cleaned else ''repo'')"

text \<open>
  The loop of \<open>infer_scope\<close> over the paths, with its two accumulators: the number of
  root-like paths and the topics collected so far.
\<close>

fun scope_loop :: "string list \<Rightarrow> nat \<Rightarrow> string list \<Rightarrow> nat \<times> string list" where
  "scope_loop [] root_like tops = (root_like, tops)"
| "scope_loop (pth # rest) root_like tops =
     (let normalized = normalize_path pth;
          parts = split_path normalized
      in if length parts \<le> 1 \<or> basename normalized \<in> ROOT_SCOPE_BASENAMES
         then scope_loop rest (root_like + 1) tops
         else
           (let top = hd parts;
                top = (if prefix ''.'' top \<and> length parts > 1
                       then (let stripped = lstrip_with (\<lambda>c. c = CHR ''.'') top
                             in if stripped \<noteq> [] then stripped else hd parts)
                       else top)
            in scope_loop rest root_like (tops @ [top])))"

definition infer_scope :: "string list \<Rightarrow> string \<Rightarrow> string" where
  "infer_scope paths commit_type =
     (if paths = [] then ''repo''
      else if commit_type = ''ci'' then ''ci''
      else if commit_type = ''docs'' then ''docs''
      else if commit_type = ''build'' then ''build''
      else
        (let (root_like, tops) = scope_loop paths 0 [];
             unique = sorted_list_of_set (set tops)
         in if length unique = 1 then sanitize_scope (hd unique)
            else if length unique > 1 then ''multi''
            else if root_like > 0 then ''repo''
            else ''repo''))"

section \<open>The intro sentence\<close>

















section \<open>The remote result\<close>

definition ALLOWED_TYPES :: "string list" where
  "ALLOWED_TYPES =
     [''feat'', ''fix'', ''refactor'', ''docs'', ''style'', ''test'', ''chore'', ''perf'', ''ci'',
      ''build'', ''revert'']"

text \<open>What \<open>json.loads\<close> returns: only an object has the method \<open>get\<close>.\<close>

datatype json =
    JNull
  | JBool bool
  | JInt int
  | JFloat int int
  | JString string
  | JArray "json list"
  | JObject "(string \<times> json) list"

text \<open>
  \<open>str(v)\<close>: a string is itself; the text of any other value is left to the parameter
  \<open>repr\<close>.
\<close>

definition py_str :: "(json \<Rightarrow> string) \<Rightarrow> json \<Rightarrow> string" where
  "py_str repr v = (case v of JString s \<Rightarrow> s | _ \<Rightarrow> repr v)"

definition dict_get :: "(string \<times> json) list \<Rightarrow> string \<Rightarrow> json \<Rightarrow> json" where
  "dict_get kvs k dflt = (case map_of kvs k of None \<Rightarrow> dflt | Some v \<Rightarrow> v)"

text \<open>
  \<open>normalize_ai_result\<close>, with \<open>json.loads\<close> as the parameter \<open>loads\<close> (\<open>None\<close> when
  it raises \<open>JSONDecodeError\<close>). The \<open>RuntimeError\<close>s are the function's own; calling
  \<open>get\<close> on a value that is no object raises \<open>AttributeError\<close>.
\<close>

definition normalize_ai_result ::
  "(string \<Rightarrow> json option) \<Rightarrow> (json \<Rightarrow> string) \<Rightarrow> string
     \<Rightarrow> error + (string \<times> string \<times> string \<times> string)" where
  "normalize_ai_result loads repr raw_json =
     (case loads raw_json of
        None \<Rightarrow> Inl RuntimeError
      | Some (JObject kvs) \<Rightarrow>
          (let commit_type = lower (strip (py_str repr (dict_get kvs ''type'' (JString []))));
               given = strip (py_str repr (dict_get kvs ''scope'' (JString [])));
               scope = sanitize_scope (if given \<noteq> [] then given else ''repo'');
               theme = strip (py_str repr (dict_get kvs ''theme'' (JString [])));
               intro = strip (py_str repr (dict_get kvs ''intro'' (JString [])))
           in if commit_type \<notin> set ALLOWED_TYPES then Inl RuntimeError
              else if theme = [] then Inl RuntimeError
              else if intro = [] then Inl RuntimeError
              else Inr (commit_type, scope, theme, intro))
      | Some _ \<Rightarrow> Inl AttributeError)"

text \<open>
  The part of \<open>run\<close> that chooses between the local description and the remote one.
  \<open>reply\<close> is what \<open>request_deepseek\<close> gave: the content, or the exception it raised.
  Only a \<open>RuntimeError\<close> is caught; any other exception leaves \<open>run\<close>.
\<close>

datatype outcome =
    Described bool "string \<times> string \<times> string \<times> string"
  | Exit nat
  | Uncaught error

definition emit :: "bool \<Rightarrow> string \<times> string \<times> string \<times> string \<Rightarrow> outcome" where
  "emit ai_used q =
     (case q of (commit_type, scope, theme, intro) \<Rightarrow>
        Described ai_used
          (if commit_type \<notin> set ALLOWED_TYPES then ''chore'' else commit_type, scope, theme, intro))"

definition run_describe ::
  "(string \<Rightarrow> json option) \<Rightarrow> (json \<Rightarrow> string) \<Rightarrow> bool \<Rightarrow> bool \<Rightarrow> error + string
     \<Rightarrow> string \<times> string \<times> string \<times> string \<Rightarrow> outcome" where
  "run_describe loads repr can_try_ai ai_required reply local_result =
     (if can_try_ai then
        (case (case reply of
                 Inl e \<Rightarrow> Inl e
               | Inr ai_raw \<Rightarrow> normalize_ai_result loads repr ai_raw) of
           Inr remote \<Rightarrow> emit True remote
         | Inl e \<Rightarrow>
             if e = RuntimeError then (if ai_required then Exit 2 else emit False local_result)
             else Uncaught e)
      else emit False local_result)"

section \<open>Auxiliary definitions of the proofs\<close>

text \<open>The dictionary of \<open>count_changes\<close> with the four counters as given.\<close>

definition four_counts :: "int \<Rightarrow> int \<Rightarrow> int \<Rightarrow> int \<Rightarrow> counts" where
  "four_counts a m d r = [''A'' \<mapsto> a, ''M'' \<mapsto> m, ''D'' \<mapsto> d, ''R'' \<mapsto> r]"

text \<open>The characters that \<open>sanitize_scope\<close> strips from both ends.\<close>

definition dash_dot :: "char \<Rightarrow> bool" where
  "dash_dot c \<longleftrightarrow> c = CHR ''-'' \<or> c = CHR ''.''"

text \<open>The class \<open>[a-z0-9._-]\<close>.\<close>

definition lower_scope_char :: "char \<Rightarrow> bool" where
  "lower_scope_char c \<longleftrightarrow>
     (CHR ''a'' \<le> c \<and> c \<le> CHR ''z'') \<or> (CHR ''0'' \<le> c \<and> c \<le> CHR ''9'')
     \<or> c = CHR ''.'' \<or> c = CHR ''_'' \<or> c = CHR ''-''"

text \<open>A scope that \<open>sanitize_scope\<close> has nothing to do on.\<close>

definition clean_scope :: "string \<Rightarrow> bool" where
  "clean_scope s \<longleftrightarrow>
     s \<noteq> [] \<and> list_all lower_scope_char s \<and> \<not> dash_dot (hd s) \<and> \<not> dash_dot (last s)"

text \<open>
  The two branches of the body of the loop of \<open>infer_scope\<close>: the test that skips a path
  as root-like, and the topic the loop collects for any other path.
\<close>

definition root_like_path :: "string \<Rightarrow> bool" where
  "root_like_path p \<longleftrightarrow>
     length (split_path (normalize_path p)) \<le> 1
     \<or> basename (normalize_path p) \<in> ROOT_SCOPE_BASENAMES"

definition topic_of :: "string \<Rightarrow> string" where
  "topic_of p =
     (let seg = hd (split_path (normalize_path p))
      in if set seg \<subseteq> {CHR ''.''} then seg else dropWhile (\<lambda>c. c = CHR ''.'') seg)"

text \<open>
  The topic as the specification words it, for comparison with the loop: exactly one
  leading dot is removed, unless that would leave nothing.
\<close>

definition spec_single_dot_topic :: "string \<Rightarrow> string" where
  "spec_single_dot_topic seg =
     (if prefix ''.'' seg then (if tl seg = [] then seg else tl seg) else seg)"

section \<open>The change parser reads the status before it counts the fields\<close>

lemma parse_line_too_few_fields:
  assumes "strip (hd (split_on (CHR 0x09) line)) \<noteq> []"
    and "length (split_on (CHR 0x09) line) < 2"
  shows "parse_line line = Inr None"
  using assms by (auto simp: parse_line_def Let_def split: list.splits)

text \<open>
  Claim C1. The parser is meant to be total and to drop silently every non-blank line
  with too few fields, a line with an empty status token included. On the line made of
  a tab and \<open>foo\<close> the status token is empty, the line is not blank, and reading the
  token's first character raises \<open>IndexError\<close>: the call fails instead of dropping
  the line.
\<close>

theorem parse_name_status_empty_status_token:
  "parse_name_status (CHR 0x09 # ''foo'') = Inl IndexError"
  by (simp add: parse_name_status_def splitlines_def is_linebreak_def strip_def strip_with_def
      lstrip_with_def rstrip_with_def is_space_def parse_line_def)

section \<open>Counting changes\<close>

lemma count_loop_step:
  "count_loop (ch # rest) (four_counts a m d r) =
     (if status ch = ''A'' \<or> status ch = ''C'' then count_loop rest (four_counts (a + 1) m d r)
      else if status ch = ''D'' then count_loop rest (four_counts a m (d + 1) r)
      else if status ch = ''R'' then count_loop rest (four_counts a m d (r + 1))
      else count_loop rest (four_counts a (m + 1) d r))"
proof -
  have A: "increment (four_counts a m d r) ''A'' = four_counts (a + 1) m d r"
    by (rule ext) (simp add: increment_def four_counts_def)
  have M: "increment (four_counts a m d r) ''M'' = four_counts a (m + 1) d r"
    by (rule ext) (simp add: increment_def four_counts_def)
  have D: "increment (four_counts a m d r) ''D'' = four_counts a m (d + 1) r"
    by (rule ext) (simp add: increment_def four_counts_def)
  have R: "increment (four_counts a m d r) ''R'' = four_counts a m d (r + 1)"
    by (rule ext) (simp add: increment_def four_counts_def)
  have keys: "(four_counts a m d r k \<noteq> None) = (k \<in> {''A'', ''M'', ''D'', ''R''})" for k
    by (simp add: four_counts_def)
  show ?thesis
    unfolding count_loop.simps keys by (auto simp: A M D R)
qed

lemma count_loop_four_counts:
  "count_loop changes (four_counts a m d r) =
     four_counts
       (a + int (length (filter (\<lambda>c. status c = ''A'' \<or> status c = ''C'') changes)))
       (m + int (length (filter (\<lambda>c. status c = ''M''
                                       \<or> status c \<notin> {''A'', ''M'', ''D'', ''R'', ''C''}) changes)))
       (d + int (length (filter (\<lambda>c. status c = ''D'') changes)))
       (r + int (length (filter (\<lambda>c. status c = ''R'') changes)))"
proof (induction changes arbitrary: a m d r)
  case Nil
  show ?case by simp
next
  case (Cons ch rest)
  show ?case
    unfolding count_loop_step by (simp add: Cons.IH add.assoc)
qed

text \<open>
  Claim C9. For every change list, \<open>count_changes\<close> returns the dictionary with exactly
  the four keys \<open>A\<close>, \<open>M\<close>, \<open>D\<close>, \<open>R\<close>: under \<open>A\<close> the number of changes of status
  \<open>A\<close> or \<open>C\<close> (a copy counts as added), under \<open>M\<close> the number of changes of status
  \<open>M\<close> or of a status that is none of \<open>A\<close>, \<open>M\<close>, \<open>D\<close>, \<open>R\<close>, \<open>C\<close>, under \<open>D\<close> and
  \<open>R\<close> the number of changes of that very status.
\<close>

theorem count_changes_buckets:
  "count_changes changes ''A'' =
     Some (int (length (filter (\<lambda>c. status c = ''A'' \<or> status c = ''C'') changes)))
   \<and> count_changes changes ''M'' =
     Some (int (length (filter (\<lambda>c. status c = ''M''
                                      \<or> status c \<notin> {''A'', ''M'', ''D'', ''R'', ''C''}) changes)))
   \<and> count_changes changes ''D'' = Some (int (length (filter (\<lambda>c. status c = ''D'') changes)))
   \<and> count_changes changes ''R'' = Some (int (length (filter (\<lambda>c. status c = ''R'') changes)))
   \<and> dom (count_changes changes) = {''A'', ''M'', ''D'', ''R''}"
proof -
  have "count_changes changes = count_loop changes (four_counts 0 0 0 0)"
    by (simp add: count_changes_def four_counts_def)
  then show ?thesis
    unfolding count_loop_four_counts by (auto simp: four_counts_def split: if_splits)
qed

theorem count_changes_buckets_witness:
  "count_changes [\<lparr>status = ''C'', path = ''a'', old_path = Some ''b''\<rparr>,
                  \<lparr>status = ''T'', path = ''c'', old_path = None\<rparr>,
                  \<lparr>status = ''D'', path = ''d'', old_path = None\<rparr>] ''A'' = Some 1
   \<and> count_changes [\<lparr>status = ''C'', path = ''a'', old_path = Some ''b''\<rparr>,
                    \<lparr>status = ''T'', path = ''c'', old_path = None\<rparr>,
                    \<lparr>status = ''D'', path = ''d'', old_path = None\<rparr>] ''M'' = Some 1"
  using count_changes_buckets
    [of "[\<lparr>status = ''C'', path = ''a'', old_path = Some ''b''\<rparr>,
          \<lparr>status = ''T'', path = ''c'', old_path = None\<rparr>,
          \<lparr>status = ''D'', path = ''d'', old_path = None\<rparr>]"]
  by simp

section \<open>Type inference\<close>

text \<open>
  Claim C2, as amended. For every non-empty list of paths and every diff text,
  \<open>infer_type\<close> returns \<open>revert\<close> if and only if the whole diff text, lower-cased,
  contains the phrase \<open>this reverts commit\<close>: the test reads every line of the diff,
  context and metadata lines included, not the content signal. No other rule is looked
  at before it, and no later rule yields \<open>revert\<close>.
\<close>

theorem infer_type_revert:
  assumes "paths \<noteq> []"
  shows "infer_type paths diff_text counts = Inr ''revert''
           \<longleftrightarrow> sublist ''this reverts commit'' (lower diff_text)"
  using assms by (auto simp: infer_type_def Let_def split: sum.splits)

theorem infer_type_revert_witness:
  "[''src/app.py''] \<noteq> []
   \<and> sublist ''this reverts commit'' (lower ''+This reverts commit 1a2b.'')
   \<and> infer_type [''src/app.py''] ''+This reverts commit 1a2b.'' Map.empty = Inr ''revert''"
proof -
  have ne: "[''src/app.py''] \<noteq> []"
    by simp
  have marker: "sublist ''this reverts commit'' (lower ''+This reverts commit 1a2b.'')"
    by code_simp
  from infer_type_revert [OF ne, of "''+This reverts commit 1a2b.''" Map.empty] marker
  have "infer_type [''src/app.py''] ''+This reverts commit 1a2b.'' Map.empty = Inr ''revert''"
    by (simp only:)
  with ne marker show ?thesis
    by (simp only: simp_thms)
qed

text \<open>
  The claim as the specification states it fails on a diff whose only line is the
  unchanged context line \<open> this reverts commit\<close>: the content signal is empty, and the
  type is \<open>revert\<close> all the same.
\<close>

theorem infer_type_revert_counterexample:
  "infer_type [''a.py''] '' this reverts commit'' Map.empty = Inr ''revert''
   \<and> \<not> sublist ''this reverts commit'' (extract_content_signal '' this reverts commit'')"
  by code_simp

text \<open>
  Claim C4. For every non-empty list of paths whose diff does not trigger the revert
  rule, \<open>infer_type\<close> goes through the five all-of rules in the order docs, test, ci,
  build, style and returns the first category that every path belongs to; and it returns
  one of the five categories only when every path belongs to that category, so one path
  outside a category keeps the category from being produced.
\<close>

theorem infer_type_categories:
  assumes "paths \<noteq> []"
    and "\<not> sublist ''this reverts commit'' (lower diff_text)"
  shows "(list_all is_docs paths \<longrightarrow> infer_type paths diff_text counts = Inr ''docs'')
    \<and> (\<not> list_all is_docs paths \<and> list_all is_test paths
          \<longrightarrow> infer_type paths diff_text counts = Inr ''test'')
    \<and> (\<not> list_all is_docs paths \<and> \<not> list_all is_test paths \<and> list_all is_ci paths
          \<longrightarrow> infer_type paths diff_text counts = Inr ''ci'')
    \<and> (\<not> list_all is_docs paths \<and> \<not> list_all is_test paths \<and> \<not> list_all is_ci paths
          \<and> list_all is_build paths
          \<longrightarrow> infer_type paths diff_text counts = Inr ''build'')
    \<and> (\<not> list_all is_docs paths \<and> \<not> list_all is_test paths \<and> \<not> list_all is_ci paths
          \<and> \<not> list_all is_build paths \<and> list_all is_style paths
          \<longrightarrow> infer_type paths diff_text counts = Inr ''style'')
    \<and> (infer_type paths diff_text counts = Inr ''docs'' \<longrightarrow> list_all is_docs paths)
    \<and> (infer_type paths diff_text counts = Inr ''test'' \<longrightarrow> list_all is_test paths)
    \<and> (infer_type paths diff_text counts = Inr ''ci'' \<longrightarrow> list_all is_ci paths)
    \<and> (infer_type paths diff_text counts = Inr ''build'' \<longrightarrow> list_all is_build paths)
    \<and> (infer_type paths diff_text counts = Inr ''style'' \<longrightarrow> list_all is_style paths)"
  using assms by (auto simp: infer_type_def Let_def split: sum.splits)

text \<open>
  Two paths that are both documentation and tests give \<open>docs\<close>, the earlier rule; with
  one path that is a test and one that is not, \<open>test\<close> is not the answer.
\<close>

theorem infer_type_categories_witness:
  "[''docs/tests/a.py'', ''tests/docs/b.py''] \<noteq> []
   \<and> \<not> sublist ''this reverts commit'' (lower ''+x'')
   \<and> list_all is_docs [''docs/tests/a.py'', ''tests/docs/b.py'']
   \<and> list_all is_test [''docs/tests/a.py'', ''tests/docs/b.py'']
   \<and> infer_type [''docs/tests/a.py'', ''tests/docs/b.py''] ''+x'' Map.empty = Inr ''docs''"
proof -
  have ne: "[''docs/tests/a.py'', ''tests/docs/b.py''] \<noteq> []"
    by simp
  have quiet: "\<not> sublist ''this reverts commit'' (lower ''+x'')"
    by code_simp
  have docs: "list_all is_docs [''docs/tests/a.py'', ''tests/docs/b.py'']"
    by code_simp
  have tests: "list_all is_test [''docs/tests/a.py'', ''tests/docs/b.py'']"
    by code_simp
  from infer_type_categories [OF ne quiet, of Map.empty] docs
  have "infer_type [''docs/tests/a.py'', ''tests/docs/b.py''] ''+x'' Map.empty = Inr ''docs''"
    by blast
  with ne quiet docs tests show ?thesis
    by (simp only: simp_thms)
qed

section \<open>Scope sanitization\<close>

subsection \<open>Characters\<close>

lemma of_char_lower_chr:
  "(of_char (lower_chr c) :: nat) =
     (if 65 \<le> (of_char c :: nat) \<and> (of_char c :: nat) \<le> 90 then of_char c + 32 else of_char c)"
  by (simp add: lower_chr_def less_eq_char_def)

lemma char_eq_code: "c = d \<longleftrightarrow> (of_char c :: nat) = of_char d"
  by simp

lemma lower_chr_scope: "scope_char c \<Longrightarrow> lower_scope_char (lower_chr c)"
  unfolding scope_char_def lower_scope_char_def less_eq_char_def char_eq_code [of _ "CHR ''.''"]
    char_eq_code [of _ "CHR ''_''"] char_eq_code [of _ "CHR ''-''"] of_char_lower_chr
  by auto

lemma lower_chr_dash_dot: "dash_dot (lower_chr c) \<longleftrightarrow> dash_dot c"
  unfolding dash_dot_def char_eq_code [of _ "CHR ''.''"] char_eq_code [of _ "CHR ''-''"]
    of_char_lower_chr
  by auto

lemma lower_chr_fixed: "lower_scope_char c \<Longrightarrow> lower_chr c = c"
  unfolding lower_scope_char_def lower_chr_def less_eq_char_def char_eq_code [of _ "CHR ''.''"]
    char_eq_code [of _ "CHR ''_''"] char_eq_code [of _ "CHR ''-''"]
  by auto

lemma lower_scope_char_scope: "lower_scope_char c \<Longrightarrow> scope_char c"
  by (auto simp: lower_scope_char_def scope_char_def)

subsection \<open>The substitution and the stripping\<close>

lemma sub_runs_chars: "list_all scope_char (sub_runs b s)"
  by (induction s arbitrary: b) (auto simp: scope_char_def)

lemma sub_runs_fixed: "list_all scope_char s \<Longrightarrow> sub_runs b s = s"
  by (induction s arbitrary: b) auto

lemma rstrip_with_Nil: "rstrip_with P [] = []"
  by (simp add: rstrip_with_def)

lemma rstrip_with_snoc:
  "rstrip_with P (s @ [c]) = (if P c then rstrip_with P s else s @ [c])"
  by (simp add: rstrip_with_def)

lemma rstrip_with_Cons: "\<not> P a \<Longrightarrow> rstrip_with P (a # s) = a # rstrip_with P s"
  by (simp add: rstrip_with_def dropWhile_append3)

lemma set_rstrip_with: "set (rstrip_with P s) \<subseteq> set s"
  by (induction s rule: rev_induct) (auto simp: rstrip_with_snoc rstrip_with_Nil)

lemma set_strip_with: "set (strip_with P s) \<subseteq> set s"
  using set_rstrip_with [of P "dropWhile P s"]
  by (auto simp: strip_with_def lstrip_with_def dest: set_dropWhileD)

lemma last_rstrip_with: "rstrip_with P s \<noteq> [] \<Longrightarrow> \<not> P (last (rstrip_with P s))"
  by (induction s rule: rev_induct) (auto simp: rstrip_with_snoc rstrip_with_Nil)

lemma hd_rstrip_with:
  "s \<noteq> [] \<Longrightarrow> \<not> P (hd s) \<Longrightarrow> rstrip_with P s \<noteq> [] \<and> hd (rstrip_with P s) = hd s"
  by (cases s) (auto simp: rstrip_with_Cons)

lemma strip_with_ends:
  assumes "strip_with P s \<noteq> []"
  shows "\<not> P (hd (strip_with P s)) \<and> \<not> P (last (strip_with P s))"
proof -
  have ne: "dropWhile P s \<noteq> []"
  proof
    assume "dropWhile P s = []"
    then have "strip_with P s = []"
      by (simp only: strip_with_def lstrip_with_def rstrip_with_Nil)
    with assms show False by simp
  qed
  then have first: "\<not> P (hd (dropWhile P s))"
    by (rule hd_dropWhile)
  with ne have "hd (rstrip_with P (dropWhile P s)) = hd (dropWhile P s)"
    using hd_rstrip_with by blast
  with first last_rstrip_with [of P "dropWhile P s"] assms
  show ?thesis
    by (simp add: strip_with_def lstrip_with_def)
qed

lemma strip_with_fixed:
  assumes "s \<noteq> []" "\<not> P (hd s)" "\<not> P (last s)"
  shows "strip_with P s = s"
proof -
  have "dropWhile P s = s"
    using assms by (cases s) auto
  moreover have "rstrip_with P s = s"
    using assms by (cases s rule: rev_cases) (auto simp: rstrip_with_snoc)
  ultimately show ?thesis
    by (simp add: strip_with_def lstrip_with_def)
qed

subsection \<open>Sanitized scopes are clean, and clean scopes are left alone\<close>

lemma dash_dot_eq: "(\<lambda>c. c = CHR ''-'' \<or> c = CHR ''.'') = dash_dot"
  by (rule ext) (simp add: dash_dot_def)

lemma sanitize_scope_fixed:
  assumes "clean_scope s"
  shows "sanitize_scope s = s"
proof -
  from assms have "list_all scope_char s"
    by (auto simp: clean_scope_def list_all_iff lower_scope_char_scope)
  then have subst: "sub_runs False s = s"
    by (rule sub_runs_fixed)
  have stripped: "strip_with dash_dot s = s"
    using assms by (auto simp: clean_scope_def intro: strip_with_fixed)
  have lowered: "lower s = s"
    using assms
    by (auto simp: clean_scope_def lower_def list_all_iff lower_chr_fixed intro: map_idI)
  show ?thesis
    using assms by (simp add: sanitize_scope_def dash_dot_eq subst stripped lowered clean_scope_def)
qed

lemma clean_literals:
  "clean_scope ''repo''" "clean_scope ''ci''" "clean_scope ''docs''" "clean_scope ''build''"
  "clean_scope ''multi''"
  by (simp_all add: clean_scope_def lower_scope_char_def dash_dot_def less_eq_char_def)

lemma sanitize_scope_clean: "clean_scope (sanitize_scope s)"
proof -
  define t where "t = strip_with dash_dot (sub_runs False s)"
  show ?thesis
  proof (cases "t = []")
    case True
    then show ?thesis
      using clean_literals(1) by (simp add: sanitize_scope_def dash_dot_eq t_def lower_def)
  next
    case False
    have chars: "list_all scope_char t"
      using sub_runs_chars [of False s] set_strip_with [of dash_dot "sub_runs False s"]
      by (auto simp: t_def list_all_iff)
    have ends: "\<not> dash_dot (hd t) \<and> \<not> dash_dot (last t)"
      using False strip_with_ends [of dash_dot "sub_runs False s"] by (simp add: t_def)
    have "clean_scope (lower t)"
      using False chars ends
      by (auto simp: clean_scope_def lower_def list_all_iff lower_chr_scope hd_map last_map
          lower_chr_dash_dot)
    then show ?thesis
      using False by (simp add: sanitize_scope_def dash_dot_eq t_def [symmetric] lower_def)
  qed
qed

text \<open>
  Claim C6. Scope sanitization is idempotent: for every string \<open>s\<close>, sanitizing the
  sanitized \<open>s\<close> gives the sanitized \<open>s\<close> again.
\<close>

theorem sanitize_scope_idempotent: "sanitize_scope (sanitize_scope s) = sanitize_scope s"
  by (rule sanitize_scope_fixed) (rule sanitize_scope_clean)

section \<open>Scope inference\<close>

lemma dropWhile_no_dot:
  "\<not> prefix ''.'' seg \<Longrightarrow> dropWhile (\<lambda>c. c = CHR ''.'') seg = seg"
  by (cases seg) auto

lemma scope_loop_eq:
  "scope_loop ps r tops =
     (r + length (filter root_like_path ps),
      tops @ map topic_of (filter (\<lambda>p. \<not> root_like_path p) ps))"
proof (induction ps arbitrary: r tops)
  case Nil
  show ?case by simp
next
  case (Cons p ps)
  show ?case
  proof (cases "root_like_path p")
    case True
    then show ?thesis
      by (simp add: Cons.IH root_like_path_def Let_def)
  next
    case False
    then have "length (split_path (normalize_path p)) > 1"
      by (simp add: root_like_path_def)
    with False show ?thesis
      by (simp add: Cons.IH root_like_path_def Let_def topic_of_def lstrip_with_def
          subset_eq dropWhile_no_dot)
  qed
qed

lemma infer_scope_eq:
  "infer_scope paths t =
     (if paths = [] then ''repo''
      else if t = ''ci'' then ''ci''
      else if t = ''docs'' then ''docs''
      else if t = ''build'' then ''build''
      else (let unique = sorted_list_of_set (topic_of ` {p \<in> set paths. \<not> root_like_path p})
            in if length unique = 1 then sanitize_scope (hd unique)
               else if length unique > 1 then ''multi'' else ''repo''))"
  by (simp add: infer_scope_def scope_loop_eq Let_def)

lemma infer_scope_clean: "clean_scope (infer_scope paths t)"
  by (simp add: infer_scope_eq Let_def clean_literals sanitize_scope_clean)

text \<open>
  Claim C10. For every list of paths and every commit type, the scope that
  \<open>infer_scope\<close> returns is not empty, has only characters of \<open>[a-z0-9._-]\<close>, neither
  starts nor ends with a hyphen or a dot, and is a fixed point of \<open>sanitize_scope\<close>.
\<close>

theorem infer_scope_sanitized:
  "infer_scope paths t \<noteq> []
   \<and> list_all lower_scope_char (infer_scope paths t)
   \<and> hd (infer_scope paths t) \<notin> {CHR ''-'', CHR ''.''}
   \<and> last (infer_scope paths t) \<notin> {CHR ''-'', CHR ''.''}
   \<and> sanitize_scope (infer_scope paths t) = infer_scope paths t"
  using infer_scope_clean [of paths t] sanitize_scope_fixed [of "infer_scope paths t"]
  by (simp add: clean_scope_def dash_dot_def)

text \<open>
  Claim C7. Scope inference does not depend on the order of the paths: for every commit
  type, two lists of paths that are permutations of each other get the same scope.
\<close>

theorem infer_scope_permutation:
  assumes "mset paths = mset paths'"
  shows "infer_scope paths t = infer_scope paths' t"
proof -
  have "set paths = set paths'"
    using assms by (rule mset_eq_setD)
  moreover have "paths = [] \<longleftrightarrow> paths' = []"
    using assms by (metis mset_zero_iff)
  ultimately show ?thesis
    by (simp add: infer_scope_eq)
qed

theorem infer_scope_permutation_witness:
  "mset [''src/a.py'', ''README.md'', ''src/b.py''] = mset [''README.md'', ''src/b.py'', ''src/a.py'']
   \<and> infer_scope [''src/a.py'', ''README.md'', ''src/b.py''] ''feat'' = ''src''
   \<and> infer_scope [''README.md'', ''src/b.py'', ''src/a.py''] ''feat'' = ''src''"
proof -
  have perm: "mset [''src/a.py'', ''README.md'', ''src/b.py'']
                = mset [''README.md'', ''src/b.py'', ''src/a.py'']"
    by simp
  have val: "infer_scope [''src/a.py'', ''README.md'', ''src/b.py''] ''feat'' = ''src''"
    by code_simp
  from infer_scope_permutation [OF perm, of "''feat''"] val
  have "infer_scope [''README.md'', ''src/b.py'', ''src/a.py''] ''feat'' = ''src''"
    by (simp only:)
  with perm val show ?thesis
    by (simp only: simp_thms)
qed

text \<open>
  Claim C3, as amended. In the loop of \<open>infer_scope\<close>, a path with more than one segment
  whose basename is not a root-level one is not skipped, and the topic collected for it
  is its first segment with all its leading dots removed; a first segment made of dots
  only is kept as it is.
\<close>

theorem infer_scope_topic:
  assumes "length (split_path (normalize_path p)) > 1"
    and "basename (normalize_path p) \<notin> ROOT_SCOPE_BASENAMES"
  shows "scope_loop (p # rest) root_like tops =
           scope_loop rest root_like
             (tops @ [let seg = hd (split_path (normalize_path p))
                      in if set seg \<subseteq> {CHR ''.''} then seg
                         else dropWhile (\<lambda>c. c = CHR ''.'') seg])"
  using assms
  by (simp add: Let_def lstrip_with_def subset_eq dropWhile_no_dot)

theorem infer_scope_topic_witness:
  "length (split_path (normalize_path ''.github/hooks/pre.sh'')) > 1
   \<and> basename (normalize_path ''.github/hooks/pre.sh'') \<notin> ROOT_SCOPE_BASENAMES
   \<and> scope_loop [''.github/hooks/pre.sh''] 0 [] = (0, [''github''])"
proof -
  have long: "length (split_path (normalize_path ''.github/hooks/pre.sh'')) > 1"
    by code_simp
  have named: "basename (normalize_path ''.github/hooks/pre.sh'') \<notin> ROOT_SCOPE_BASENAMES"
    by code_simp
  have seg: "(let seg = hd (split_path (normalize_path ''.github/hooks/pre.sh''))
              in if set seg \<subseteq> {CHR ''.''} then seg
                 else dropWhile (\<lambda>c. c = CHR ''.'') seg) = ''github''"
    by code_simp
  from infer_scope_topic [OF long named, of "[]" 0 "[]"]
  have "scope_loop [''.github/hooks/pre.sh''] 0 [] = (0, [''github''])"
    unfolding seg by simp
  with long named show ?thesis
    by (simp only: simp_thms)
qed

text \<open>
  The claim as the specification states it fails on the path \<open>..hidden/x\<close>: removing
  exactly one leading dot from the first segment would give \<open>.hidden\<close>, and the loop
  collects \<open>hidden\<close>.
\<close>

theorem infer_scope_topic_counterexample:
  "length (split_path (normalize_path ''..hidden/x'')) > 1
   \<and> basename (normalize_path ''..hidden/x'') \<notin> ROOT_SCOPE_BASENAMES
   \<and> hd (split_path (normalize_path ''..hidden/x'')) = ''..hidden''
   \<and> spec_single_dot_topic ''..hidden'' = ''.hidden''
   \<and> scope_loop [''..hidden/x''] 0 [] = (0, [''hidden''])"
  by code_simp

section \<open>The intro sentence\<close>



section \<open>The remote result\<close>

lemma normalize_ai_result_object:
  assumes "loads raw_json = Some (JObject kvs)"
  shows "normalize_ai_result loads repr raw_json = Inl RuntimeError
     \<longleftrightarrow> lower (strip (py_str repr (dict_get kvs ''type'' (JString [])))) \<notin> set ALLOWED_TYPES
         \<or> strip (py_str repr (dict_get kvs ''theme'' (JString []))) = []
         \<or> strip (py_str repr (dict_get kvs ''intro'' (JString []))) = []"
  using assms by (auto simp: normalize_ai_result_def Let_def)

lemma run_describe_fallback:
  assumes "normalize_ai_result loads repr ai_raw = Inl RuntimeError"
  shows "run_describe loads repr True False (Inr ai_raw) local_result = emit False local_result"
  using assms by (simp add: run_describe_def)

text \<open>
  Claim C5. Validation of the remote reply is meant to reject the reply with the error
  that \<open>run\<close> recovers from, so that the local description is used whole. On the reply
  \<open>[]\<close>, which is JSON and no object, \<open>normalize_ai_result\<close> raises \<open>AttributeError\<close>
  instead, which \<open>run\<close> does not catch: in non-strict mode there is no fallback to the
  local description, the exception leaves \<open>run\<close>.
\<close>

theorem normalize_ai_result_not_an_object:
  "normalize_ai_result (\<lambda>s. if s = ''[]'' then Some (JArray []) else None) repr ''[]''
     = Inl AttributeError
   \<and> run_describe (\<lambda>s. if s = ''[]'' then Some (JArray []) else None) repr True False
       (Inr ''[]'') local_result
     = Uncaught AttributeError"
  by (simp add: normalize_ai_result_def run_describe_def)

end
